theory Spec2Isabelle
  imports Main "HOL-Library.Word"
begin

section \<open>Strings\<close>

text \<open>
  Go strings are byte sequences, here \<open>string\<close>. The two functions of package
  \<open>strings\<close> the program calls: \<open>strings.HasSuffix\<close> and \<open>strings.Count\<close> (the number
  of non-overlapping instances of \<open>substr\<close>; for an empty \<open>substr\<close> Go counts code points
  plus one, which is the byte length plus one on ASCII; the program only calls it with
  the literal \<open>.ne-\<close>).
\<close>

definition HasSuffix :: "string \<Rightarrow> string \<Rightarrow> bool" where
  "HasSuffix s suffix \<longleftrightarrow>
     length suffix \<le> length s \<and> drop (length s - length suffix) s = suffix"

function Count :: "string \<Rightarrow> string \<Rightarrow> nat" where
  "Count s substr =
     (if substr = [] then length s + 1
      else if length s < length substr then 0
      else if take (length substr) s = substr
        then 1 + Count (drop (length substr) s) substr
      else Count (tl s) substr)"
  by pat_completeness auto
termination
proof (relation "measure (\<lambda>(s, substr). length s)")
  fix s substr :: string
  assume a: "substr \<noteq> []" "\<not> length s < length substr"
  then show "((drop (length substr) s, substr), s, substr)
      \<in> measure (\<lambda>(s, substr). length s)"
    by (cases substr; cases s) auto
  from a have "s \<noteq> []" by auto
  then show "((tl s, substr), s, substr) \<in> measure (\<lambda>(s, substr). length s)"
    by simp
qed simp

declare Count.simps [simp del]

section \<open>DNS messages\<close>

text \<open>
  The parts of the DNS library's message type that the program reads or writes. A
  resource record is an address record (\<open>*dns.A\<close>, carrying the printed form of its
  address, the value of \<open>A.String()\<close>) or any other record. A \<open>*dns.Msg\<close> that may be
  nil is a \<open>Msg option\<close>.
\<close>

type_synonym uint16 = "16 word"

definition TypeA :: uint16 where "TypeA = 1"
definition TypeAAAA :: uint16 where "TypeAAAA = 28"
definition ClassINET :: uint16 where "ClassINET = 1"

record Question =
  Name :: string
  Qtype :: uint16
  Qclass :: uint16

datatype RR = RR_A string | RR_Other string

record Msg =
  Response :: bool
  Question :: "Question list"
  Answer :: "RR list"
  Extra :: "RR list"

definition newMsg :: Msg where
  "newMsg = \<lparr>Response = False, Question = [], Answer = [], Extra = []\<rparr>"

definition SetQuestion :: "Msg \<Rightarrow> string \<Rightarrow> uint16 \<Rightarrow> Msg" where
  "SetQuestion m z t = m\<lparr>Question := [\<lparr>Name = z, Qtype = t, Qclass = ClassINET\<rparr>]\<rparr>"

definition SetReply :: "Msg \<Rightarrow> Msg \<Rightarrow> Msg" where
  "SetReply r request =
     r\<lparr>Response := True,
       Question := (case Question request of [] \<Rightarrow> Question r | q # _ \<Rightarrow> [q])\<rparr>"

section \<open>Errors, panics and observable events\<close>

text \<open>
  A Go \<open>error\<close> that may be nil is an \<open>error option\<close>. \<open>Errorf\<close> is an error the program
  itself makes with \<open>fmt.Errorf\<close>; \<open>External\<close> is an error handed back by a library or
  a collaborator (dial, write, read, pack, parse, address set).
\<close>

datatype error = Errorf string | External string

fun Error :: "error \<Rightarrow> string" where
  "Error (Errorf s) = s"
| "Error (External s) = s"

datatype panic = IndexOutOfRange | SliceBoundsOutOfRange | NilDereference

text \<open>
  How a call of the handler ends: it returns, it panics (deferred functions run, then
  the panic goes on to the caller), or \<open>log.Fatalln\<close> ends the process with
  \<open>os.Exit(1)\<close> (deferred functions do not run).
\<close>

datatype outcome = Returned | Panicked panic | Exited int

text \<open>
  Every call that leaves the function under study is an event, in the order the calls
  are made. A log line is recorded without its final newline.
\<close>

datatype event =
    E_Log string
  | E_GenRecord nat string uint16
  | E_NewRR string
  | E_getDNSCache Question "RR list"
  | E_setDNSCache Question "RR list" "Msg option"
  | E_IsBlocked string
  | E_Dial string string
  | E_TLSClient string bool
  | E_ConnWriteMsg Msg
  | E_ConnReadMsg
  | E_ConnClose
  | E_Exchange string Msg string
  | E_IPSetAdd string string int
  | E_WriteMsg Msg
  | E_Close
  | E_Pack
  | E_SetTransport string
  | E_Post string string "8 word list"
  | E_ReadAll
  | E_BodyClose
  | E_Unpack "8 word list"

fun isNetworkIO :: "event \<Rightarrow> bool" where
  "isNetworkIO (E_Dial d a) = True"
| "isNetworkIO (E_ConnWriteMsg m) = True"
| "isNetworkIO E_ConnReadMsg = True"
| "isNetworkIO (E_Exchange n m a) = True"
| "isNetworkIO (E_Post u c b) = True"
| "isNetworkIO E_ReadAll = True"
| "isNetworkIO _ = False"

fun isQuery :: "event \<Rightarrow> bool" where
  "isQuery (E_Dial d a) = True"
| "isQuery (E_Exchange n m a) = True"
| "isQuery _ = False"

fun isCacheWrite :: "event \<Rightarrow> bool" where
  "isCacheWrite (E_setDNSCache q x r) = True"
| "isCacheWrite _ = False"



fun isReply :: "event \<Rightarrow> bool" where
  "isReply (E_WriteMsg m) = True"
| "isReply _ = False"

text \<open>
  What the network does during one upstream exchange: the result of the proxy's
  \<open>Dial\<close>, of \<open>WriteMsg\<close> and \<open>ReadMsg\<close> on the connection, and of the client's
  \<open>Exchange\<close>. A read or an exchange may hand back a message together with an error;
  a dial that fails hands back no connection.
\<close>

record netcall =
  dial_result :: "error option"
  write_result :: "error option"
  read_result :: "Msg option \<times> error option"
  exchange_result :: "Msg option \<times> error option"

section \<open>The domain router\<close>

text \<open>
  \<open>getGroupName\<close> ranges over the package-level \<open>suffixMap\<close>, a Go map from suffix to
  group name (the loop binds key and value, both used as strings). The order in which
  \<open>range\<close> visits a map is not fixed by the language and changes from one loop to the
  next, so the function takes the entries in the order this call visits them. \<open>rangeOrder tbl es\<close> says that \<open>es\<close> is such an order for the
  table with entries \<open>tbl\<close>: the same entries, each key once.
  The classifier \<open>config.GFWChecker.IsBlocked\<close> is a collaborator, given as a function
  to \<open>(blocked, ok)\<close>.
\<close>

definition rangeOrder :: "(string \<times> string) list \<Rightarrow> (string \<times> string) list \<Rightarrow> bool" where
  "rangeOrder tbl es \<longleftrightarrow>
     distinct (map fst tbl) \<and> distinct (map fst es) \<and> set es = set tbl"

fun suffixLoop :: "(string \<times> string) list \<Rightarrow> string \<Rightarrow> (string \<times> string) option" where
  "suffixLoop [] domain = None"
| "suffixLoop ((suffix, grp) # rest) domain =
     (if HasSuffix domain suffix then Some (grp, ''suffix '' @ suffix)
      else suffixLoop rest domain)"

definition getGroupName ::
  "(string \<times> string) list \<Rightarrow> (string \<Rightarrow> bool \<times> bool) \<Rightarrow> string
     \<Rightarrow> (string \<times> string) \<times> event list" where
  "getGroupName suffixMap IsBlocked domain =
     (case suffixLoop suffixMap domain of
        Some res \<Rightarrow> (res, [])
      | None \<Rightarrow>
          (case IsBlocked domain of
             (blocked, ok) \<Rightarrow>
               (if ok then
                  (if blocked then ((''dirty'', ''GFWList''), [E_IsBlocked domain])
                   else ((''clean'', ''GFWList''), [E_IsBlocked domain]))
                else ((''clean'', ''default''), [E_IsBlocked domain]))))"

section \<open>One upstream query\<close>

text \<open>
  \<open>queryDns\<close> builds the query, talks to one server (through the proxy when the group
  has a dialer, with the shared client otherwise) and, in its deferred function, hands
  the result to \<open>setDNSCache\<close> and closes the proxy connection if one was opened.
  A dialer is named by its address; the shared client has the empty network name, which
  the library reads as UDP. \<open>queryDns_body\<close> is the function up to its
  \<open>return\<close>: the results, whether \<open>proxyConn\<close> is non-nil, and the calls made.
\<close>

definition queryDns_body ::
  "netcall \<Rightarrow> Question \<Rightarrow> string \<Rightarrow> RR list \<Rightarrow> string option
     \<Rightarrow> (Msg option \<times> error option) \<times> bool \<times> event list" where
  "queryDns_body nc question server extra dialer =
     (let msg = SetQuestion (newMsg\<lparr>Extra := extra\<rparr>) (Name question) (Qtype question) in
      case dialer of
        Some d \<Rightarrow>
          (case dial_result nc of
             Some err \<Rightarrow> ((None, Some err), False, [E_Dial d server])
           | None \<Rightarrow>
               (case write_result nc of
                  Some err \<Rightarrow> ((None, Some err), True, [E_Dial d server, E_ConnWriteMsg msg])
                | None \<Rightarrow>
                    (read_result nc, True,
                     [E_Dial d server, E_ConnWriteMsg msg, E_ConnReadMsg])))
      | None \<Rightarrow> (exchange_result nc, False, [E_Exchange [] msg server]))"

definition queryDns ::
  "netcall \<Rightarrow> Question \<Rightarrow> string \<Rightarrow> RR list \<Rightarrow> string option
     \<Rightarrow> (Msg option \<times> error option) \<times> event list" where
  "queryDns nc question server extra dialer =
     (case queryDns_body nc question server extra dialer of
        ((r, err), proxyConn, evs) \<Rightarrow>
          ((r, err),
           evs @ [E_setDNSCache question extra r] @ (if proxyConn then [E_ConnClose] else [])))"

section \<open>The query handler\<close>

text \<open>
  A group as the handler reads it: the servers, the proxy dialer (nil is \<open>None\<close>), the
  address set (nil is \<open>None\<close>, otherwise its name) and its TTL.
\<close>

record Group =
  DNS :: "string list"
  Dialer :: "string option"
  IPSet :: "string option"
  IPSetTTL :: int

text \<open>
  The package-level state and the collaborators of the handler, all of them declared
  outside the handler's file: the suffix table in the order \<open>range\<close> visits it, the
  classifier, the hosts readers (each one its \<open>GenRecord\<close>), the record parser
  \<open>dns.NewRR\<close>, the cache as \<open>getDNSCache\<close> finds it, the groups, the network's answer
  to the i-th upstream query of this request, \<open>IPSet.Add\<close> by set name, and the
  requester's address.
\<close>

record env =
  suffixMap :: "(string \<times> string) list"
  IsBlocked :: "string \<Rightarrow> bool \<times> bool"
  hostsReaders :: "(string \<Rightarrow> uint16 \<Rightarrow> string) list"
  NewRR :: "string \<Rightarrow> error + RR"
  getDNSCache :: "Question \<Rightarrow> RR list \<Rightarrow> Msg option"
  Groups :: "string \<rightharpoonup> Group"
  net :: "nat \<Rightarrow> netcall"
  IPSetAdd :: "string \<Rightarrow> string \<Rightarrow> int \<Rightarrow> error option"
  RemoteAddr :: string

text \<open>The deferred function of \<open>ServeDNS\<close>: reply if there is an answer, then close.\<close>

definition deferred :: "Msg \<Rightarrow> Msg option \<Rightarrow> event list" where
  "deferred request r =
     (case r of Some m \<Rightarrow> [E_WriteMsg (SetReply m request)] | None \<Rightarrow> []) @ [E_Close]"

text \<open>
  The loop over the hosts readers, from reader number \<open>i\<close> on. The slice expression
  \<open>question.Name[:len(question.Name)-1]\<close> panics on an empty name. The result is the
  first non-empty record, if any.
\<close>

fun hostsLoop ::
  "(string \<Rightarrow> uint16 \<Rightarrow> string) list \<Rightarrow> nat \<Rightarrow> Question
     \<Rightarrow> (panic + string option) \<times> event list" where
  "hostsLoop [] i question = (Inr None, [])"
| "hostsLoop (reader # rest) i question =
     (if Name question = [] then (Inl SliceBoundsOutOfRange, [])
      else
        (let hostname = take (length (Name question) - 1) (Name question);
             record1 = reader hostname (Qtype question);
             record2 = (if record1 = [] then reader (Name question) (Qtype question)
                        else record1);
             evs = E_GenRecord i hostname (Qtype question) #
                   (if record1 = [] then [E_GenRecord i (Name question) (Qtype question)]
                    else [])
         in if record2 \<noteq> [] then (Inr (Some record2), evs)
            else (case hostsLoop rest (Suc i) question of
                    (res, evs') \<Rightarrow> (res, evs @ evs'))))"

text \<open>
  The loop over the group's servers, from query number \<open>i\<close> on; \<open>r\<close> is nil before the
  loop (the cache missed) and holds the last query's response after it.
\<close>

fun dnsLoop ::
  "(nat \<Rightarrow> netcall) \<Rightarrow> nat \<Rightarrow> Question \<Rightarrow> RR list \<Rightarrow> string option \<Rightarrow> string list
     \<Rightarrow> Msg option \<times> event list" where
  "dnsLoop nt i question extra dialer [] = (None, [])"
| "dnsLoop nt i question extra dialer (server # rest) =
     (case queryDns (nt i) question server extra dialer of
        ((r, err), evs) \<Rightarrow>
          (let logs = (case err of
                         Some e \<Rightarrow> [E_Log (''[ERROR] query dns error: '' @ Error e)]
                       | None \<Rightarrow> [])
           in if r \<noteq> None then (r, evs @ logs)
              else (case dnsLoop nt (Suc i) question extra dialer rest of
                      (r', evs') \<Rightarrow> (r', evs @ logs @ evs'))))"

text \<open>The loop over the answer records that writes address records to the set.\<close>

fun ipsetLoop :: "(string \<Rightarrow> int \<Rightarrow> error option) \<Rightarrow> string \<Rightarrow> int \<Rightarrow> RR list \<Rightarrow> event list" where
  "ipsetLoop add nm ttl [] = []"
| "ipsetLoop add nm ttl (RR_A ip # rest) =
     E_IPSetAdd nm ip ttl #
     (case add ip ttl of
        Some err \<Rightarrow>
          [E_Log (''[ERROR] add '' @ ip @ '' to IPSet error: '' @ Error err)]
      | None \<Rightarrow> []) @ ipsetLoop add nm ttl rest"
| "ipsetLoop add nm ttl (RR_Other x # rest) = ipsetLoop add nm ttl rest"

definition info :: "env \<Rightarrow> Question \<Rightarrow> string" where
  "info e question =
     ''[INFO] domain '' @ Name question @ '' from '' @ RemoteAddr e @ '' ''"

text \<open>
  The handler after the hosts lookup found nothing: cache, routing, dispatch, address
  set. \<open>pre\<close> are the events so far.
\<close>

definition resolve :: "env \<Rightarrow> Msg \<Rightarrow> Question \<Rightarrow> event list \<Rightarrow> outcome \<times> event list" where
  "resolve e request question pre =
     (case getDNSCache e question (Extra request) of
        Some r \<Rightarrow>
          (Returned,
           pre @ [E_getDNSCache question (Extra request),
                  E_Log (info e question @ ''hit cache'')] @ deferred request (Some r))
      | None \<Rightarrow>
          (case getGroupName (suffixMap e) (IsBlocked e) (Name question) of
             ((groupName, reason), evs2) \<Rightarrow>
               (let pre2 = pre @ [E_getDNSCache question (Extra request)] @ evs2 @
                       [E_Log (info e question @ ''match group '' @ [CHR 0x27] @ groupName
                               @ [CHR 0x27] @ '' ('' @ reason @ '')'')]
                in case Groups e groupName of
                     None \<Rightarrow> (Returned, pre2 @ deferred request None)
                   | Some g \<Rightarrow>
                       (case dnsLoop (net e) 0 question (Extra request) (Dialer g) (DNS g) of
                          (r, evs3) \<Rightarrow>
                            (case IPSet g of
                               None \<Rightarrow> (Returned, pre2 @ evs3 @ deferred request r)
                             | Some nm \<Rightarrow>
                                 (case r of
                                    None \<Rightarrow>
                                      (Panicked NilDereference,
                                       pre2 @ evs3 @ deferred request None)
                                  | Some m \<Rightarrow>
                                      (Returned,
                                       pre2 @ evs3
                                       @ ipsetLoop (IPSetAdd e nm) nm (IPSetTTL g) (Answer m)
                                       @ deferred request r)))))))"

definition ServeDNS :: "env \<Rightarrow> Msg \<Rightarrow> outcome \<times> event list" where
  "ServeDNS e request =
     (case Question request of
        [] \<Rightarrow> (Panicked IndexOutOfRange, deferred request None)
      | question # _ \<Rightarrow>
          if Count (Name question) ''.ne-'' > 1
          then (Exited 1, [E_Log ''[CRITICAL] recursive query''])
          else
            (case (if Qtype question = TypeA \<or> Qtype question = TypeAAAA
                   then hostsLoop (hostsReaders e) 0 question else (Inr None, [])) of
               (Inl p, evs) \<Rightarrow> (Panicked p, evs @ deferred request None)
             | (Inr (Some rec), evs) \<Rightarrow>
                 (case NewRR e rec of
                    Inl err \<Rightarrow>
                      (Returned,
                       evs @ [E_NewRR rec,
                              E_Log (''[ERROR] make dns.RR error: '' @ Error err),
                              E_Log (info e question @ ''match hosts'')]
                       @ deferred request None)
                  | Inr ret \<Rightarrow>
                      (Returned,
                       evs @ [E_NewRR rec, E_Log (info e question @ ''match hosts'')]
                       @ deferred request (Some (newMsg\<lparr>Answer := [ret]\<rparr>))))
             | (Inr None, evs) \<Rightarrow> resolve e request question evs))"

section \<open>The transport callers\<close>

text \<open>
  The DNS client as \<open>call\<close> reads it: the network name and, for DNS over TLS, the server
  name and the skip-verification flag of its TLS configuration.
\<close>

record Client =
  Net :: string
  TLSConfig :: "(string \<times> bool) option"

definition udpClient :: Client where "udpClient = \<lparr>Net = ''udp'', TLSConfig = None\<rparr>"
definition tcpClient :: Client where "tcpClient = \<lparr>Net = ''tcp'', TLSConfig = None\<rparr>"

definition call ::
  "netcall \<Rightarrow> Client \<Rightarrow> Msg option \<Rightarrow> string \<Rightarrow> string option
     \<Rightarrow> (Msg option \<times> error option) \<times> event list" where
  "call nc client request address dialer =
     (case request of
        None \<Rightarrow> ((None, Some (Errorf ''request or server address cannot be empty'')), [])
      | Some req \<Rightarrow>
          if length (Question req) \<le> 0 \<or> address = []
          then ((None, Some (Errorf ''request or server address cannot be empty'')), [])
          else
            (case dialer of
               None \<Rightarrow> (exchange_result nc, [E_Exchange (Net client) req address])
             | Some d \<Rightarrow>
                 (case dial_result nc of
                    Some err \<Rightarrow> ((None, Some err), [E_Dial d address])
                  | None \<Rightarrow>
                      (let wrap = (if Net client = ''tcp'' \<or> Net client = ''udp'' then []
                                   else (case TLSConfig client of
                                           Some (nm, skip) \<Rightarrow> [E_TLSClient nm skip]
                                         | None \<Rightarrow> [E_TLSClient [] False]))
                       in case write_result nc of
                            Some err \<Rightarrow>
                              ((None, Some err),
                               [E_Dial d address] @ wrap @ [E_ConnWriteMsg req, E_ConnClose])
                          | None \<Rightarrow>
                              (read_result nc,
                               [E_Dial d address] @ wrap
                               @ [E_ConnWriteMsg req, E_ConnReadMsg, E_ConnClose])))))"

text \<open>
  What the libraries do during one DNS-over-HTTPS call: \<open>Pack\<close> of the request, the
  HTTP POST, reading the body, \<open>Unpack\<close> of the body.
\<close>

record httpcall =
  pack_result :: "Msg \<Rightarrow> error + 8 word list"
  post_result :: "error option"
  readall_result :: "error + 8 word list"
  unpack_result :: "8 word list \<Rightarrow> error + Msg"

datatype Caller =
    UDPCaller string "string option"
  | TCPCaller string "string option"
  | TLSCaller string "string option" Client
  | DoHCaller string "string option"

definition NewTLSCaller :: "string \<Rightarrow> string option \<Rightarrow> string \<Rightarrow> bool \<Rightarrow> Caller" where
  "NewTLSCaller address dialer serverName skipVerify =
     TLSCaller address dialer \<lparr>Net = ''tcp-tls'', TLSConfig = Some (serverName, skipVerify)\<rparr>"

text \<open>
  \<open>DoHCaller.Call\<close>. \<open>request.Pack()\<close> on a nil request reads through the nil pointer.
\<close>

definition DoHCall ::
  "httpcall \<Rightarrow> string \<Rightarrow> string option \<Rightarrow> Msg option
     \<Rightarrow> (panic + Msg option \<times> error option) \<times> event list" where
  "DoHCall hc url dialer request =
     (case request of
        None \<Rightarrow> (Inl NilDereference, [])
      | Some req \<Rightarrow>
          (case pack_result hc req of
             Inl err \<Rightarrow> (Inr (None, Some err), [E_Pack])
           | Inr buf \<Rightarrow>
               (let evs = [E_Pack]
                      @ (case dialer of Some d \<Rightarrow> [E_SetTransport d] | None \<Rightarrow> [])
                      @ [E_Post url ''application/dns-message'' buf]
                in case post_result hc of
                     Some err \<Rightarrow> (Inr (None, Some err), evs)
                   | None \<Rightarrow>
                       (case readall_result hc of
                          Inl err \<Rightarrow> (Inr (None, Some err), evs @ [E_ReadAll, E_BodyClose])
                        | Inr body \<Rightarrow>
                            (case unpack_result hc body of
                               Inl err \<Rightarrow>
                                 (Inr (None, Some err),
                                  evs @ [E_ReadAll, E_Unpack body, E_BodyClose])
                             | Inr msg \<Rightarrow>
                                 (Inr (Some msg, None),
                                  evs @ [E_ReadAll, E_Unpack body, E_BodyClose]))))))"

text \<open>The method \<open>Call\<close> of the interface, by variant.\<close>

fun Call ::
  "netcall \<Rightarrow> httpcall \<Rightarrow> Caller \<Rightarrow> Msg option
     \<Rightarrow> (panic + Msg option \<times> error option) \<times> event list" where
  "Call nc hc (UDPCaller address dialer) request =
     (case call nc udpClient request address dialer of (res, evs) \<Rightarrow> (Inr res, evs))"
| "Call nc hc (TCPCaller address dialer) request =
     (case call nc tcpClient request address dialer of (res, evs) \<Rightarrow> (Inr res, evs))"
| "Call nc hc (TLSCaller address dialer client) request =
     (case call nc client request address dialer of (res, evs) \<Rightarrow> (Inr res, evs))"
| "Call nc hc (DoHCaller url dialer) request = DoHCall hc url dialer request"

section \<open>Reading a trace\<close>

text \<open>
  Functions that read the events of a run, used to state the properties: the server an
  upstream query went to, the key of a cache write, the events and the response of the
  j-th upstream query of the dispatch loop, the lookups made at one hosts reader, and
  the events a hosts answer must not be followed by.
\<close>

fun queriedServer :: "event \<Rightarrow> string option" where
  "queriedServer (E_Dial d a) = Some a"
| "queriedServer (E_Exchange n m a) = Some a"
| "queriedServer _ = None"


definition attempt ::
  "(nat \<Rightarrow> netcall) \<Rightarrow> Question \<Rightarrow> RR list \<Rightarrow> string option \<Rightarrow> string list \<Rightarrow> nat
     \<Rightarrow> event list" where
  "attempt nt question extra dialer servers j =
     snd (queryDns (nt j) question (servers ! j) extra dialer) @
     (case snd (fst (queryDns (nt j) question (servers ! j) extra dialer)) of
        Some e \<Rightarrow> [E_Log (''[ERROR] query dns error: '' @ Error e)]
      | None \<Rightarrow> [])"

definition response ::
  "(nat \<Rightarrow> netcall) \<Rightarrow> Question \<Rightarrow> RR list \<Rightarrow> string option \<Rightarrow> string list \<Rightarrow> nat
     \<Rightarrow> Msg option" where
  "response nt question extra dialer servers j =
     fst (fst (queryDns (nt j) question (servers ! j) extra dialer))"



section \<open>Concrete configurations\<close>

text \<open>Classifiers, environments and requests at which the theorems below are run.\<close>

definition chk_none :: "string \<Rightarrow> bool \<times> bool" where
  "chk_none domain = (False, False)"

definition chk_blocked :: "string \<Rightarrow> bool \<times> bool" where
  "chk_blocked domain = (True, True)"

definition question_a :: Question where
  "question_a = \<lparr>Name = ''a.com.'', Qtype = TypeA, Qclass = ClassINET\<rparr>"

definition request_a :: Msg where
  "request_a = \<lparr>Response = False, Question = [question_a], Answer = [], Extra = []\<rparr>"

definition request_loop :: Msg where
  "request_loop =
     \<lparr>Response = False,
      Question = [\<lparr>Name = ''a.ne-b.ne-c.'', Qtype = TypeA, Qclass = ClassINET\<rparr>],
      Answer = [], Extra = []\<rparr>"

definition answer_a :: Msg where
  "answer_a =
     \<lparr>Response = True,
      Question = [\<lparr>Name = ''a.com.'', Qtype = TypeA, Qclass = ClassINET\<rparr>],
      Answer = [RR_A ''93.184.216.34''], Extra = []\<rparr>"

definition net_fail :: "nat \<Rightarrow> netcall" where
  "net_fail i =
     \<lparr>dial_result = Some (External ''connection refused''), write_result = None,
      read_result = (None, None),
      exchange_result = (None, Some (External ''i/o timeout''))\<rparr>"

definition net_ab :: "nat \<Rightarrow> netcall" where
  "net_ab i =
     (if i = 0 then
        \<lparr>dial_result = None, write_result = None, read_result = (None, None),
         exchange_result = (None, Some (External ''i/o timeout''))\<rparr>
      else
        \<lparr>dial_result = None, write_result = None, read_result = (None, None),
         exchange_result = (Some answer_a, None)\<rparr>)"

definition reader_none :: "string \<Rightarrow> uint16 \<Rightarrow> string" where
  "reader_none hostname t = []"

definition reader_a :: "string \<Rightarrow> uint16 \<Rightarrow> string" where
  "reader_a hostname t =
     (if hostname = ''a.com'' \<and> t = TypeA then ''a.com 0 IN A 10.0.0.1'' else [])"


definition parse :: "string \<Rightarrow> error + RR" where
  "parse s = (if s = ''a.com 0 IN A 10.0.0.1'' then Inr (RR_A ''10.0.0.1'')
              else Inl (External ''dns: bad A A''))"

definition group_plain :: Group where
  "group_plain = \<lparr>DNS = [''8.8.8.8:53''], Dialer = None, IPSet = None, IPSetTTL = 0\<rparr>"

definition group_ipset :: Group where
  "group_ipset = \<lparr>DNS = [''8.8.8.8:53''], Dialer = None, IPSet = Some ''cleanset'', IPSetTTL = 0\<rparr>"

definition env_hosts :: env where
  "env_hosts =
     \<lparr>suffixMap = [], IsBlocked = chk_none, hostsReaders = [reader_none, reader_a],
      NewRR = parse,
      getDNSCache = (\<lambda>q x. None),
      Groups = [''clean'' \<mapsto> group_plain],
      net = net_fail,
      IPSetAdd = (\<lambda>nm ip ttl. None),
      RemoteAddr = ''127.0.0.1:5353''\<rparr>"


definition env_ipset :: env where
  "env_ipset =
     \<lparr>suffixMap = [], IsBlocked = chk_none, hostsReaders = [],
      NewRR = (\<lambda>s. Inl (External ''bad record'')),
      getDNSCache = (\<lambda>q x. None),
      Groups = [''clean'' \<mapsto> group_ipset],
      net = net_fail,
      IPSetAdd = (\<lambda>nm ip ttl. None),
      RemoteAddr = ''127.0.0.1:5353''\<rparr>"

definition env_fallback :: env where
  "env_fallback =
     env_hosts\<lparr>hostsReaders := [],
               Groups := [''clean'' \<mapsto>
                 \<lparr>DNS = [''1.1.1.1:53'', ''8.8.8.8:53''], Dialer = None, IPSet = None,
                  IPSetTTL = 0\<rparr>],
               net := net_ab\<rparr>"

definition http_up :: httpcall where
  "http_up =
     \<lparr>pack_result = (\<lambda>m. Inr [0, 0, 1, 0, 0, 0, 0, 0, 0, 0, 0, 0]),
      post_result = None,
      readall_result = Inr [0, 0, 129, 128, 0, 0, 0, 0, 0, 0, 0, 0],
      unpack_result = (\<lambda>body. Inr (newMsg\<lparr>Response := True\<rparr>))\<rparr>"

section \<open>The router: first match in visiting order\<close>

lemma HasSuffix_iff: "HasSuffix s suffix \<longleftrightarrow> (\<exists>p. s = p @ suffix)"
proof
  assume "HasSuffix s suffix"
  then have "s = take (length s - length suffix) s @ suffix"
    by (metis HasSuffix_def append_take_drop_id)
  then show "\<exists>p. s = p @ suffix" ..
next
  assume "\<exists>p. s = p @ suffix"
  then show "HasSuffix s suffix" by (auto simp: HasSuffix_def)
qed

lemma suffixLoop_Some:
  "suffixLoop es domain = Some res \<Longrightarrow>
     \<exists>pre s g post. es = pre @ (s, g) # post \<and> (\<forall>(s', g')\<in>set pre. \<not> HasSuffix domain s')
        \<and> HasSuffix domain s \<and> res = (g, ''suffix '' @ s)"
proof (induction es)
  case Nil
  then show ?case by simp
next
  case (Cons a es)
  obtain s g where a: "a = (s, g)" by (cases a)
  show ?case
  proof (cases "HasSuffix domain s")
    case True
    with Cons.prems a have "res = (g, ''suffix '' @ s)" by simp
    with True a have "a # es = [] @ (s, g) # es \<and> (\<forall>(s', g')\<in>set []. \<not> HasSuffix domain s')
        \<and> HasSuffix domain s \<and> res = (g, ''suffix '' @ s)" by simp
    then show ?thesis by blast
  next
    case False
    with Cons.prems a have "suffixLoop es domain = Some res" by simp
    from Cons.IH[OF this] obtain pre s' g' post where
      h: "es = pre @ (s', g') # post" "\<forall>(s', g')\<in>set pre. \<not> HasSuffix domain s'"
         "HasSuffix domain s'" "res = (g', ''suffix '' @ s')" by blast
    with False a have "a # es = (a # pre) @ (s', g') # post
        \<and> (\<forall>(s', g')\<in>set (a # pre). \<not> HasSuffix domain s')
        \<and> HasSuffix domain s' \<and> res = (g', ''suffix '' @ s')" by simp
    then show ?thesis by blast
  qed
qed

lemma suffixLoop_None:
  "suffixLoop es domain = None \<longleftrightarrow> (\<forall>(s, g)\<in>set es. \<not> HasSuffix domain s)"
  by (induction es) (auto split: if_splits)

lemma suffixLoop_Some_mem:
  "suffixLoop es domain = Some res \<Longrightarrow>
     \<exists>s g. (s, g) \<in> set es \<and> HasSuffix domain s \<and> res = (g, ''suffix '' @ s)"
  by (induction es) (auto split: if_splits)

lemma suffixLoop_first:
  "(\<forall>(s', g')\<in>set pre. \<not> HasSuffix domain s') \<Longrightarrow> HasSuffix domain s \<Longrightarrow>
     suffixLoop (pre @ (s, g) # post) domain = Some (g, ''suffix '' @ s)"
  by (induction pre) auto

text \<open>
  C2, as stated, fails: routing is not a function of the domain name, the suffix table
  and the classifier alone. The table is a map, visited in an order that is not part of
  the configuration; with the table \<open>.com \<mapsto> clean, a.com \<mapsto> dirty\<close> the two visiting orders
  route \<open>a.com\<close> differently.
\<close>

theorem getGroupName_order_counterexample:
  "rangeOrder [(''.com'', ''clean''), (''a.com'', ''dirty'')]
              [(''.com'', ''clean''), (''a.com'', ''dirty'')] \<and>
   rangeOrder [(''.com'', ''clean''), (''a.com'', ''dirty'')]
              [(''a.com'', ''dirty''), (''.com'', ''clean'')] \<and>
   getGroupName [(''.com'', ''clean''), (''a.com'', ''dirty'')] chk_none ''a.com''
     \<noteq> getGroupName [(''a.com'', ''dirty''), (''.com'', ''clean'')] chk_none ''a.com''"
  by (auto simp: rangeOrder_def getGroupName_def HasSuffix_def)

text \<open>
  C2, amended: two calls that visit the same suffix table, in whatever orders, with the
  same classifier return identical results (group name, reason and classifier calls)
  for every domain name that ends with at most one suffix of the table.
\<close>

theorem getGroupName_deterministic:
  assumes "rangeOrder tbl es1" and "rangeOrder tbl es2"
    and "\<forall>(s, g)\<in>set tbl. \<forall>(s', g')\<in>set tbl.
           HasSuffix domain s \<and> HasSuffix domain s' \<longrightarrow> s = s'"
  shows "getGroupName es1 chk domain = getGroupName es2 chk domain"
proof -
  have sets: "set es1 = set tbl" "set es2 = set tbl" and d: "distinct (map fst tbl)"
    using assms(1,2) by (simp_all add: rangeOrder_def)
  have "suffixLoop es1 domain = suffixLoop es2 domain"
  proof (cases "suffixLoop es1 domain")
    case None
    then have "suffixLoop es2 domain = None"
      using sets by (simp add: suffixLoop_None)
    with None show ?thesis by simp
  next
    case (Some res1)
    then have "suffixLoop es2 domain \<noteq> None"
      using sets suffixLoop_None[of es1 domain] suffixLoop_None[of es2 domain] by simp
    then obtain res2 where Some2: "suffixLoop es2 domain = Some res2" by blast
    from suffixLoop_Some_mem[OF Some] obtain s1 g1 where
      1: "(s1, g1) \<in> set tbl" "HasSuffix domain s1" "res1 = (g1, ''suffix '' @ s1)"
      using sets by blast
    from suffixLoop_Some_mem[OF Some2] obtain s2 g2 where
      2: "(s2, g2) \<in> set tbl" "HasSuffix domain s2" "res2 = (g2, ''suffix '' @ s2)"
      using sets by blast
    from assms(3) 1 2 have "s1 = s2" by blast
    with d 1 2 have "g1 = g2" by (meson eq_key_imp_eq_value)
    with \<open>s1 = s2\<close> 1 2 Some Some2 show ?thesis by simp
  qed
  then show ?thesis by (simp add: getGroupName_def)
qed

theorem getGroupName_deterministic_witness:
  "rangeOrder [(''.cn.'', ''clean''), (''google.com.'', ''dirty'')]
              [(''google.com.'', ''dirty''), (''.cn.'', ''clean'')] \<and>
   getGroupName [(''.cn.'', ''clean''), (''google.com.'', ''dirty'')] chk_none ''www.google.com.''
     = getGroupName [(''google.com.'', ''dirty''), (''.cn.'', ''clean'')] chk_none ''www.google.com.''"
proof -
  have 1: "rangeOrder [(''.cn.'', ''clean''), (''google.com.'', ''dirty'')]
              [(''.cn.'', ''clean''), (''google.com.'', ''dirty'')]"
    by code_simp
  have 2: "rangeOrder [(''.cn.'', ''clean''), (''google.com.'', ''dirty'')]
              [(''google.com.'', ''dirty''), (''.cn.'', ''clean'')]"
    by code_simp
  have 3: "\<forall>(s, g)\<in>set [(''.cn.'', ''clean''), (''google.com.'', ''dirty'')].
        \<forall>(s', g')\<in>set [(''.cn.'', ''clean''), (''google.com.'', ''dirty'')].
           HasSuffix ''www.google.com.'' s \<and> HasSuffix ''www.google.com.'' s' \<longrightarrow> s = s'"
    by code_simp
  from 2 getGroupName_deterministic[OF 1 2 3, of chk_none] show ?thesis ..
qed

text \<open>
  C5, as stated, fails: \<open>.com\<close> is configured for \<open>clean\<close> and \<open>a.com\<close> ends with \<open>.com\<close>,
  but when the loop visits the entry \<open>a.com \<mapsto> dirty\<close> first the domain routes to \<open>dirty\<close>.
\<close>

theorem getGroupName_suffix_counterexample:
  "(''.com'', ''clean'') \<in> set [(''a.com'', ''dirty''), (''.com'', ''clean'')] \<and>
   HasSuffix ''a.com'' ''.com'' \<and>
   fst (getGroupName [(''a.com'', ''dirty''), (''.com'', ''clean'')] chk_none ''a.com'')
     \<noteq> (''clean'', ''suffix .com'')"
  by (simp add: getGroupName_def HasSuffix_def)

text \<open>
  C5, amended: a domain name that ends with a configured suffix S routes to the group of
  the first suffix S' in visiting order that it ends with, with reason \<open>suffix S'\<close>, and
  the classifier is not consulted; when S, mapped to G, is the only configured suffix the
  name ends with, that is group G with reason \<open>suffix S\<close>.
\<close>

theorem getGroupName_suffix:
  assumes "(S, G) \<in> set es" and "HasSuffix domain S"
  shows "(\<exists>pre S' G' post. es = pre @ (S', G') # post \<and>
            (\<forall>(s, g)\<in>set pre. \<not> HasSuffix domain s) \<and> HasSuffix domain S' \<and>
            getGroupName es chk domain = ((G', ''suffix '' @ S'), [])) \<and>
         ((\<forall>(s, g)\<in>set es. HasSuffix domain s \<longrightarrow> s = S \<and> g = G) \<longrightarrow>
            getGroupName es chk domain = ((G, ''suffix '' @ S), []))"
proof -
  from assms have "suffixLoop es domain \<noteq> None"
    by (auto simp: suffixLoop_None)
  then obtain res where res: "suffixLoop es domain = Some res" by blast
  from suffixLoop_Some[OF res] obtain pre S' G' post where
    h: "es = pre @ (S', G') # post" "\<forall>(s, g)\<in>set pre. \<not> HasSuffix domain s"
       "HasSuffix domain S'" "res = (G', ''suffix '' @ S')" by blast
  have g: "getGroupName es chk domain = ((G', ''suffix '' @ S'), [])"
    using res h(4) by (simp add: getGroupName_def)
  have "(S', G') \<in> set es" using h(1) by simp
  with h(3) g have "(\<forall>(s, g)\<in>set es. HasSuffix domain s \<longrightarrow> s = S \<and> g = G) \<longrightarrow>
            getGroupName es chk domain = ((G, ''suffix '' @ S), [])"
    by auto
  with h g show ?thesis by blast
qed

theorem getGroupName_suffix_witness:
  "getGroupName [(''.cn.'', ''clean''), (''google.com.'', ''dirty'')] chk_blocked ''www.google.com.''
     = ((''dirty'', ''suffix google.com.''), [])"
proof -
  have 1: "(''google.com.'', ''dirty'') \<in> set [(''.cn.'', ''clean''), (''google.com.'', ''dirty'')]"
    by simp
  have 2: "HasSuffix ''www.google.com.'' ''google.com.''"
    by code_simp
  have 3: "\<forall>(s, g)\<in>set [(''.cn.'', ''clean''), (''google.com.'', ''dirty'')].
             HasSuffix ''www.google.com.'' s \<longrightarrow> s = ''google.com.'' \<and> g = ''dirty''"
    by code_simp
  from mp[OF conjunct2[OF getGroupName_suffix[OF 1 2, of chk_blocked]] 3] show ?thesis
    by simp
qed

text \<open>
  C6, as stated, fails on the reason: for a domain that matches no suffix and that the
  classifier reports matched and blocked, the router returns the reason \<open>GFWList\<close>, not
  \<open>classifier\<close>.
\<close>

theorem getGroupName_classifier_counterexample:
  "suffixLoop [] ''twitter.com.'' = None \<and> chk_blocked ''twitter.com.'' = (True, True) \<and>
   fst (getGroupName [] chk_blocked ''twitter.com.'') \<noteq> (''dirty'', ''classifier'')"
  by (simp add: getGroupName_def chk_blocked_def)

text \<open>
  C6, amended: for every domain name matching no configured suffix the classifier is
  consulted exactly once, and the router returns \<open>(dirty, GFWList)\<close> when it reports a
  match and blocked, \<open>(clean, GFWList)\<close> when it reports a match and not blocked, and
  \<open>(clean, default)\<close> when it reports no match; there is no failure path.
\<close>

theorem getGroupName_classifier:
  assumes "\<forall>(s, g)\<in>set es. \<not> HasSuffix domain s"
  shows "getGroupName es chk domain =
           (case chk domain of
              (blocked, ok) \<Rightarrow>
                if ok \<and> blocked then (''dirty'', ''GFWList'')
                else if ok then (''clean'', ''GFWList'')
                else (''clean'', ''default''),
            [E_IsBlocked domain])"
proof -
  from assms have "suffixLoop es domain = None" by (simp add: suffixLoop_None)
  then show ?thesis by (simp add: getGroupName_def split: prod.splits)
qed

theorem getGroupName_classifier_witness:
  "getGroupName [(''.cn.'', ''clean'')] chk_blocked ''twitter.com.''
     = ((''dirty'', ''GFWList''), [E_IsBlocked ''twitter.com.''])"
proof -
  have 1: "\<forall>(s, g)\<in>set [(''.cn.'', ''clean'')]. \<not> HasSuffix ''twitter.com.'' s"
    by code_simp
  from getGroupName_classifier[OF 1, of chk_blocked] show ?thesis
    by (simp add: chk_blocked_def)
qed

section \<open>The query handler: guards\<close>

text \<open>
  C10: the handler reads \<open>request.Question[0]\<close> before anything else, so a request whose
  question list is empty makes it panic with an index out of range; only the deferred
  close of the response writer runs. The handler presupposes at least one question.
\<close>

theorem ServeDNS_no_question_panics:
  "Question request = [] \<Longrightarrow> ServeDNS e request = (Panicked IndexOutOfRange, [E_Close])"
  by (simp add: ServeDNS_def deferred_def)

theorem ServeDNS_no_question_panics_witness:
  "ServeDNS env_ipset newMsg = (Panicked IndexOutOfRange, [E_Close])"
proof -
  have 1: "Question newMsg = []" by (simp add: newMsg_def)
  from ServeDNS_no_question_panics[OF 1] show ?thesis .
qed

text \<open>
  C9: a request whose question name holds the loop marker \<open>.ne-\<close> more than once takes
  the fatal path: the process exits with status 1 after one log line, before any hosts
  lookup, cache lookup, routing or upstream query, and without a reply.
\<close>

theorem ServeDNS_recursive_fatal:
  assumes "Question request = question # rest"
    and "1 < Count (Name question) ''.ne-''"
  shows "ServeDNS e request = (Exited 1, [E_Log ''[CRITICAL] recursive query''])"
  using assms by (simp add: ServeDNS_def)

theorem ServeDNS_recursive_fatal_witness:
  "1 < Count ''a.ne-b.ne-c.'' ''.ne-'' \<and> 
   ServeDNS env_ipset request_loop = (Exited 1, [E_Log ''[CRITICAL] recursive query''])"
proof -
  have 1: "Question request_loop = \<lparr>Name = ''a.ne-b.ne-c.'', Qtype = TypeA, Qclass = ClassINET\<rparr> # []"
    by (simp add: request_loop_def)
  have 2: "1 < Count (Name \<lparr>Name = ''a.ne-b.ne-c.'', Qtype = TypeA, Qclass = ClassINET\<rparr>) ''.ne-''"
    by code_simp
  have 3: "1 < Count ''a.ne-b.ne-c.'' ''.ne-''"
    by code_simp
  from 3 ServeDNS_recursive_fatal[OF 1 2, of env_ipset] show ?thesis ..
qed

section \<open>The query handler: hosts\<close>






section \<open>Upstream queries and the dispatch loop\<close>

lemma queryDns_body_events:
  assumes "queryDns_body nc q server extra dialer = (res, conn, evs)"
  shows "filter isCacheWrite evs = []"
    and "List.map_filter queriedServer evs = [server]"
    and "length (filter isQuery evs) = 1"
  using assms
  by (auto simp: queryDns_body_def Let_def List.map_filter_def split: option.splits)

lemma queryDns_queried:
  "List.map_filter queriedServer (snd (queryDns nc q server extra dialer)) = [server]"
proof -
  obtain r err conn evs where b: "queryDns_body nc q server extra dialer = ((r, err), conn, evs)"
    by (metis prod.exhaust)
  from queryDns_body_events(2)[OF b] b show ?thesis
    by (simp add: queryDns_def List.map_filter_def)
qed



lemma map_filter_append:
  "List.map_filter f (xs @ ys) = List.map_filter f xs @ List.map_filter f ys"
  by (simp add: List.map_filter_def)

lemma attempt_queried:
  "List.map_filter queriedServer (attempt nt q extra dialer servers j) = [servers ! j]"
  by (simp add: attempt_def map_filter_append queryDns_queried)
     (simp add: List.map_filter_def split: option.splits)

lemma dnsLoop_hit:
  assumes "response nt q extra dialer servers i = Some m"
  shows "dnsLoop nt i q extra dialer (servers ! i # rest)
           = (Some m, attempt nt q extra dialer servers i)"
proof -
  obtain r err evs where q: "queryDns (nt i) q (servers ! i) extra dialer = ((r, err), evs)"
    by (metis prod.exhaust)
  with assms have "r = Some m" by (simp add: response_def)
  with q show ?thesis by (simp add: attempt_def)
qed

lemma dnsLoop_miss:
  assumes "response nt q extra dialer servers i = None"
  shows "dnsLoop nt i q extra dialer (servers ! i # rest)
           = (fst (dnsLoop nt (Suc i) q extra dialer rest),
              attempt nt q extra dialer servers i
              @ snd (dnsLoop nt (Suc i) q extra dialer rest))"
proof -
  obtain r err evs where q: "queryDns (nt i) q (servers ! i) extra dialer = ((r, err), evs)"
    by (metis prod.exhaust)
  with assms have "r = None" by (simp add: response_def)
  with q show ?thesis by (simp add: attempt_def split: prod.splits)
qed

text \<open>The loop started at query number i on the servers from position i on.\<close>

lemma dnsLoop_hit_from:
  assumes "i + k < length servers"
    and "\<forall>j<k. response nt q extra dialer servers (i + j) = None"
    and "response nt q extra dialer servers (i + k) = Some m"
  shows "dnsLoop nt i q extra dialer (drop i servers)
           = (Some m, concat (map (attempt nt q extra dialer servers) [i..<Suc (i + k)]))"
  using assms
proof (induction k arbitrary: i)
  case 0
  then have d: "drop i servers = servers ! i # drop (Suc i) servers"
    by (simp add: Cons_nth_drop_Suc)
  from 0 have "response nt q extra dialer servers i = Some m" by simp
  from dnsLoop_hit[OF this] d show ?case by simp
next
  case (Suc k)
  then have d: "drop i servers = servers ! i # drop (Suc i) servers"
    by (simp add: Cons_nth_drop_Suc)
  from Suc.prems(2) have "response nt q extra dialer servers (i + 0) = None" by blast
  then have miss: "response nt q extra dialer servers i = None" by simp
  have IH: "dnsLoop nt (Suc i) q extra dialer (drop (Suc i) servers)
           = (Some m, concat (map (attempt nt q extra dialer servers) [Suc i..<Suc (Suc i + k)]))"
  proof (rule Suc.IH)
    show "Suc i + k < length servers" using Suc.prems(1) by simp
    show "\<forall>j<k. response nt q extra dialer servers (Suc i + j) = None"
      using Suc.prems(2) by (metis Suc_less_eq add_Suc_shift)
    show "response nt q extra dialer servers (Suc i + k) = Some m"
      using Suc.prems(3) by simp
  qed
  have u: "[i..<Suc (i + Suc k)] = i # [Suc i..<Suc (Suc i + k)]"
    by (simp add: upt_conv_Cons)
  show ?case
    unfolding d dnsLoop_miss[OF miss] IH u by simp
qed

lemma dnsLoop_miss_from:
  assumes "\<forall>j<length servers - i. response nt q extra dialer servers (i + j) = None"
  shows "dnsLoop nt i q extra dialer (drop i servers)
           = (None, concat (map (attempt nt q extra dialer servers) [i..<length servers]))"
  using assms
proof (induction "length servers - i" arbitrary: i)
  case 0
  then show ?case by simp
next
  case (Suc n)
  then have lt: "i < length servers" by simp
  then have d: "drop i servers = servers ! i # drop (Suc i) servers"
    by (simp add: Cons_nth_drop_Suc)
  from Suc.prems lt have "response nt q extra dialer servers (i + 0) = None" by force
  then have miss: "response nt q extra dialer servers i = None" by simp
  have IH: "dnsLoop nt (Suc i) q extra dialer (drop (Suc i) servers)
           = (None, concat (map (attempt nt q extra dialer servers) [Suc i..<length servers]))"
  proof (rule Suc.hyps(1))
    show "n = length servers - Suc i" using Suc.hyps(2) by simp
    show "\<forall>j<length servers - Suc i. response nt q extra dialer servers (Suc i + j) = None"
    proof (intro allI impI)
      fix j assume "j < length servers - Suc i"
      then have "Suc j < length servers - i" by simp
      with Suc.prems have "response nt q extra dialer servers (i + Suc j) = None" by blast
      then show "response nt q extra dialer servers (Suc i + j) = None" by simp
    qed
  qed
  have u: "[i..<length servers] = i # [Suc i..<length servers]"
    using lt by (simp add: upt_conv_Cons)
  show ?case
    unfolding d dnsLoop_miss[OF miss] IH u by simp
qed

lemma queried_concat_attempts:
  "n \<le> length servers \<Longrightarrow>
   List.map_filter queriedServer (concat (map (attempt nt q extra dialer servers) [0..<n]))
     = take n servers"
proof (induction n)
  case 0
  then show ?case by (simp add: List.map_filter_def)
next
  case (Suc n)
  then have "List.map_filter queriedServer
        (concat (map (attempt nt q extra dialer servers) [0..<n])) = take n servers"
    by simp
  moreover from Suc.prems have "take (Suc n) servers = take n servers @ [servers ! n]"
    by (simp add: take_Suc_conv_app_nth)
  ultimately show ?case
    by (simp add: map_filter_append attempt_queried)
qed

text \<open>
  C4: the dispatch loop queries the group's servers in configured order, one after the
  other. If the queries before position k return no response and the one at k returns
  a response (with or without an error), the loop ends with that response, its events
  are those of the queries 0 to k in order, each followed by the log line of its error
  if it had one, and the servers queried are exactly the first k+1; no later server is
  queried. If every query returns no response, every server is queried once, in order.
\<close>

theorem dnsLoop_first_response:
  "(k < length servers \<and>
    (\<forall>j<k. response nt q extra dialer servers j = None) \<and>
    response nt q extra dialer servers k = Some m \<longrightarrow>
      dnsLoop nt 0 q extra dialer servers
        = (Some m, concat (map (attempt nt q extra dialer servers) [0..<Suc k])) \<and>
      List.map_filter queriedServer (snd (dnsLoop nt 0 q extra dialer servers))
        = take (Suc k) servers) \<and>
   ((\<forall>j<length servers. response nt q extra dialer servers j = None) \<longrightarrow>
      dnsLoop nt 0 q extra dialer servers
        = (None, concat (map (attempt nt q extra dialer servers) [0..<length servers])) \<and>
      List.map_filter queriedServer (snd (dnsLoop nt 0 q extra dialer servers)) = servers)"
proof (intro conjI impI)
  assume a: "k < length servers \<and>
    (\<forall>j<k. response nt q extra dialer servers j = None) \<and>
    response nt q extra dialer servers k = Some m"
  then have "dnsLoop nt 0 q extra dialer (drop 0 servers)
        = (Some m, concat (map (attempt nt q extra dialer servers) [0..<Suc (0 + k)]))"
    by (intro dnsLoop_hit_from) simp_all
  then show l: "dnsLoop nt 0 q extra dialer servers
        = (Some m, concat (map (attempt nt q extra dialer servers) [0..<Suc k]))"
    by simp
  from a have "Suc k \<le> length servers" by simp
  from queried_concat_attempts[OF this] l
  show "List.map_filter queriedServer (snd (dnsLoop nt 0 q extra dialer servers))
        = take (Suc k) servers"
    by simp
next
  assume a: "\<forall>j<length servers. response nt q extra dialer servers j = None"
  then have "dnsLoop nt 0 q extra dialer (drop 0 servers)
        = (None, concat (map (attempt nt q extra dialer servers) [0..<length servers]))"
    by (intro dnsLoop_miss_from) simp
  then show l: "dnsLoop nt 0 q extra dialer servers
        = (None, concat (map (attempt nt q extra dialer servers) [0..<length servers]))"
    by simp
  from queried_concat_attempts[of "length servers" servers] l
  show "List.map_filter queriedServer (snd (dnsLoop nt 0 q extra dialer servers)) = servers"
    by simp
qed

theorem dnsLoop_first_response_witness:
  "fst (dnsLoop net_ab 0 question_a [] None [''1.1.1.1:53'', ''8.8.8.8:53'', ''9.9.9.9:53''])
     = Some answer_a \<and>
   List.map_filter queriedServer
     (snd (dnsLoop net_ab 0 question_a [] None [''1.1.1.1:53'', ''8.8.8.8:53'', ''9.9.9.9:53'']))
     = [''1.1.1.1:53'', ''8.8.8.8:53''] \<and>
   fst (dnsLoop net_fail 0 question_a [] None [''1.1.1.1:53'', ''8.8.8.8:53'']) = None \<and>
   List.map_filter queriedServer
     (snd (dnsLoop net_fail 0 question_a [] None [''1.1.1.1:53'', ''8.8.8.8:53'']))
     = [''1.1.1.1:53'', ''8.8.8.8:53'']"
proof -
  let ?abc = "[''1.1.1.1:53'', ''8.8.8.8:53'', ''9.9.9.9:53'']"
  let ?ab = "[''1.1.1.1:53'', ''8.8.8.8:53'']"
  have r0: "response net_ab question_a [] None ?abc 0 = None"
    by code_simp
  have r1: "response net_ab question_a [] None ?abc 1 = Some answer_a"
    by code_simp
  have f0: "response net_fail question_a [] None ?ab 0 = None"
    by code_simp
  have f1: "response net_fail question_a [] None ?ab 1 = None"
    by code_simp
  have h1: "1 < length ?abc \<and>
      (\<forall>j<1. response net_ab question_a [] None ?abc j = None) \<and>
      response net_ab question_a [] None ?abc 1 = Some answer_a"
    using r0 r1 by simp
  have h2: "\<forall>j<length ?ab. response net_fail question_a [] None ?ab j = None"
    using f0 f1 by (simp add: less_Suc_eq numeral_2_eq_2)
  have t1: "take (Suc 1) ?abc = ?ab" by simp
  have A: "dnsLoop net_ab 0 question_a [] None ?abc
        = (Some answer_a, concat (map (attempt net_ab question_a [] None ?abc) [0..<Suc 1])) \<and>
      List.map_filter queriedServer (snd (dnsLoop net_ab 0 question_a [] None ?abc))
        = take (Suc 1) ?abc"
    by (rule mp[OF conjunct1[OF dnsLoop_first_response] h1])
  have B: "dnsLoop net_fail 0 question_a [] None ?ab
        = (None, concat (map (attempt net_fail question_a [] None ?ab) [0..<length ?ab])) \<and>
      List.map_filter queriedServer (snd (dnsLoop net_fail 0 question_a [] None ?ab)) = ?ab"
    by (rule mp[OF conjunct2[OF dnsLoop_first_response] h2])
  have a1: "fst (dnsLoop net_ab 0 question_a [] None ?abc) = Some answer_a"
    by (simp only: conjunct1[OF A] fst_conv)
  have a2: "List.map_filter queriedServer (snd (dnsLoop net_ab 0 question_a [] None ?abc)) = ?ab"
    by (simp only: conjunct2[OF A] t1)
  have b1: "fst (dnsLoop net_fail 0 question_a [] None ?ab) = None"
    by (simp only: conjunct1[OF B] fst_conv)
  from a1 a2 b1 conjunct2[OF B] show ?thesis by (intro conjI)
qed




text \<open>
  The fallback example: a group with two servers, the first query fails, the second
  answers. The handler queries each server once, in order, and replies with the
  second server's response.
\<close>

lemma ServeDNS_fallback_example:
  "fst (ServeDNS env_fallback request_a) = Returned \<and>
   List.map_filter queriedServer (snd (ServeDNS env_fallback request_a))
     = [''1.1.1.1:53'', ''8.8.8.8:53''] \<and>
   filter isReply (snd (ServeDNS env_fallback request_a))
     = [E_WriteMsg (SetReply answer_a request_a)]"
  by code_simp

section \<open>The query handler: exhaustion\<close>

lemma hostsLoop_no_reply: "filter isReply (snd (hostsLoop readers i question)) = []"
proof (induction readers arbitrary: i)
  case Nil
  then show ?case by simp
next
  case (Cons reader rest)
  obtain res evs where h: "hostsLoop rest (Suc i) question = (res, evs)"
    by (metis prod.exhaust)
  with Cons.IH[of "Suc i"] have "filter isReply evs = []" by simp
  with h show ?case by (simp add: Let_def)
qed

lemma getGroupName_no_reply: "filter isReply (snd (getGroupName es chk domain)) = []"
  by (simp add: getGroupName_def split: option.splits prod.splits)

lemma queryDns_no_reply: "filter isReply (snd (queryDns nc q server extra dialer)) = []"
  by (auto simp: queryDns_def queryDns_body_def Let_def split: option.splits prod.splits)

lemma dnsLoop_no_reply: "filter isReply (snd (dnsLoop nt i q extra dialer servers)) = []"
proof (induction servers arbitrary: i)
  case Nil
  then show ?case by simp
next
  case (Cons server rest)
  obtain r err evs where q: "queryDns (nt i) q server extra dialer = ((r, err), evs)"
    by (metis prod.exhaust)
  have "filter isReply evs = []"
    using queryDns_no_reply[of "nt i" q server extra dialer] q by simp
  then show ?case using q Cons.IH[of "Suc i"]
    by (auto split: option.splits prod.splits)
qed

lemma resolve_exhaustion:
  assumes "getDNSCache e question (Extra request) = None"
    and "fst (getGroupName (suffixMap e) (IsBlocked e) (Name question)) = (groupName, reason)"
    and "Groups e groupName = Some g"
    and "fst (dnsLoop (net e) 0 question (Extra request) (Dialer g) (DNS g)) = None"
  shows "fst (resolve e request question pre)
           = (if IPSet g = None then Returned else Panicked NilDereference)"
    and "filter isReply (snd (resolve e request question pre)) = filter isReply pre"
proof -
  obtain evs2 where g: "getGroupName (suffixMap e) (IsBlocked e) (Name question)
      = ((groupName, reason), evs2)"
    using assms(2) by (metis prod.collapse)
  obtain evs3 where d: "dnsLoop (net e) 0 question (Extra request) (Dialer g) (DNS g)
      = (None, evs3)"
    using assms(4) by (metis prod.collapse)
  have n2: "filter isReply evs2 = []"
    using getGroupName_no_reply[of "suffixMap e" "IsBlocked e" "Name question"] g by simp
  have n3: "filter isReply evs3 = []"
    using dnsLoop_no_reply[of "net e" 0 question "Extra request" "Dialer g" "DNS g"] d by simp
  show "fst (resolve e request question pre)
           = (if IPSet g = None then Returned else Panicked NilDereference)"
    using assms(1,3) g d by (simp add: resolve_def Let_def split: option.splits)
  show "filter isReply (snd (resolve e request question pre)) = filter isReply pre"
    using assms(1,3) g d n2 n3
    by (simp add: resolve_def Let_def deferred_def split: option.splits)
qed

lemma ServeDNS_exhaustion:
  assumes "Question request = question # rest"
    and "\<not> 1 < Count (Name question) ''.ne-''"
    and "Qtype question \<noteq> TypeA \<and> Qtype question \<noteq> TypeAAAA
         \<or> fst (hostsLoop (hostsReaders e) 0 question) = Inr None"
    and "getDNSCache e question (Extra request) = None"
    and "fst (getGroupName (suffixMap e) (IsBlocked e) (Name question)) = (groupName, reason)"
    and "Groups e groupName = Some g"
    and "fst (dnsLoop (net e) 0 question (Extra request) (Dialer g) (DNS g)) = None"
  shows "fst (ServeDNS e request)
           = (if IPSet g = None then Returned else Panicked NilDereference)"
    and "filter isReply (snd (ServeDNS e request)) = []"
proof -
  define h where "h = (if Qtype question = TypeA \<or> Qtype question = TypeAAAA
                   then hostsLoop (hostsReaders e) 0 question else (Inr None, []))"
  have h1: "fst h = Inr None" using assms(3) by (auto simp: h_def)
  have h2: "filter isReply (snd h) = []" by (simp add: h_def hostsLoop_no_reply)
  obtain evs where h: "h = (Inr None, evs)"
    using h1 by (cases h) simp
  have "ServeDNS e request =
      (case h of
         (Inl p, evs) \<Rightarrow> (Panicked p, evs @ deferred request None)
       | (Inr (Some rec), evs) \<Rightarrow>
           (case NewRR e rec of
              Inl err \<Rightarrow>
                (Returned,
                 evs @ [E_NewRR rec,
                        E_Log (''[ERROR] make dns.RR error: '' @ Error err),
                        E_Log (info e question @ ''match hosts'')]
                 @ deferred request None)
            | Inr ret \<Rightarrow>
                (Returned,
                 evs @ [E_NewRR rec, E_Log (info e question @ ''match hosts'')]
                 @ deferred request (Some (newMsg\<lparr>Answer := [ret]\<rparr>))))
       | (Inr None, evs) \<Rightarrow> resolve e request question evs)"
    using assms(1,2) by (simp add: ServeDNS_def h_def)
  then have s: "ServeDNS e request = resolve e request question (snd h)"
    by (simp add: h)
  show "fst (ServeDNS e request)
           = (if IPSet g = None then Returned else Panicked NilDereference)"
    unfolding s by (rule resolve_exhaustion(1)[OF assms(4-7)])
  show "filter isReply (snd (ServeDNS e request)) = []"
    unfolding s resolve_exhaustion(2)[OF assms(4-7)] by (rule h2)
qed

text \<open>
  C1 at a failing input: the group \<open>clean\<close> has one server and an address set, the only
  upstream query fails with a nil response. No reply is sent, but the handler does not
  return: ranging over \<open>r.Answer\<close> with \<open>r\<close> nil panics. (By \<open>ServeDNS_exhaustion\<close> the
  handler returns without a reply exactly when the group has no address set.)
\<close>

theorem ServeDNS_exhaustion_ipset_panic:
  "fst (dnsLoop (net env_ipset) 0 question_a (Extra request_a) (Dialer group_ipset) (DNS group_ipset)) = None \<and>
   fst (ServeDNS env_ipset request_a) = Panicked NilDereference \<and>
   filter isReply (snd (ServeDNS env_ipset request_a)) = []"
  by code_simp

section \<open>The transport callers: request validation\<close>

lemma call_invalid_request:
  assumes "request = None \<or> (\<exists>req. request = Some req \<and> Question req = []) \<or> address = []"
  shows "call nc client request address dialer
           = ((None, Some (Errorf ''request or server address cannot be empty'')), [])"
  using assms by (auto simp: call_def split: option.splits)

lemma Call_invalid_request:
  assumes "request = None \<or> (\<exists>req. request = Some req \<and> Question req = []) \<or> address = []"
  shows "Call nc hc (UDPCaller address dialer) request
           = (Inr (None, Some (Errorf ''request or server address cannot be empty'')), [])"
    and "Call nc hc (TCPCaller address dialer) request
           = (Inr (None, Some (Errorf ''request or server address cannot be empty'')), [])"
    and "Call nc hc (TLSCaller address dialer client) request
           = (Inr (None, Some (Errorf ''request or server address cannot be empty'')), [])"
  by (simp_all add: call_invalid_request[OF assms])

lemma DoHCall_posts:
  assumes "pack_result hc req = Inr buf"
  shows "E_Post url ''application/dns-message'' buf
           \<in> set (snd (Call nc hc (DoHCaller url dialer) (Some req)))"
  using assms by (simp add: DoHCall_def Let_def split: option.splits sum.splits)

text \<open>
  C3 at a failing input: the UDP, TCP and TLS callers reject a nil request, a request
  without questions and an empty address before any network I/O
  (\<open>Call_invalid_request\<close>), but the HTTPS caller has no such check: called with a
  request without questions it packs the request and posts it.
\<close>

theorem DoHCall_zero_questions_posts:
  "Question newMsg = [] \<and>
   Call (net_fail 0) http_up (DoHCaller ''https://dns.example/dns-query'' None) (Some newMsg)
     = (Inr (Some (newMsg\<lparr>Response := True\<rparr>), None),
        [E_Pack,
         E_Post ''https://dns.example/dns-query'' ''application/dns-message''
           [0, 0, 1, 0, 0, 0, 0, 0, 0, 0, 0, 0],
         E_ReadAll,
         E_Unpack [0, 0, 129, 128, 0, 0, 0, 0, 0, 0, 0, 0],
         E_BodyClose]) \<and>
   filter isNetworkIO
     (snd (Call (net_fail 0) http_up (DoHCaller ''https://dns.example/dns-query'' None)
             (Some newMsg)))
     = [E_Post ''https://dns.example/dns-query'' ''application/dns-message''
          [0, 0, 1, 0, 0, 0, 0, 0, 0, 0, 0, 0],
        E_ReadAll]"
  by (simp add: newMsg_def DoHCall_def http_up_def)

end
